theory Spec2Isabelle
  imports Main
begin

section \<open>The proxy exchange orchestrator of proxychain/proxychain.go\<close>

text \<open>
  The development embeds \<^verbatim>\<open>proxychain.go\<close> (type \<^verbatim>\<open>ProxyChain\<close> and its methods) and
  the request modifier \<^verbatim>\<open>RequestArchiveIs\<close>. Conventions:
  \<^item> a Go \<^verbatim>\<open>string\<close> or \<^verbatim>\<open>[]byte\<close> is a \<open>string\<close> (a list of bytes); the nil slice is \<open>[]\<close>;
  \<^item> a Go \<^verbatim>\<open>error\<close> is its message, \<open>nil\<close> is \<open>None\<close>;
  \<^item> a pointer is an \<open>option\<close>; dereferencing \<open>None\<close> is the run-time panic \<open>Panic\<close>;
  \<^item> a deferred call runs when its function returns and also when it panics;
  \<^item> the fiber contexts live in a store indexed by address, since \<^verbatim>\<open>_reset\<close> only
    forgets the pointer and the response written into the context stays with the caller;
  \<^item> the functions of net/url, net/http and fiber that the code calls are parameters
    (record \<open>env\<close>), and so are the bodies of the modifiers, which the chain holds
    by identifier (\<open>'q\<close> for request modifiers, \<open>'r\<close> for response modifiers);
  \<^item> identifiers of the source that start with an underscore carry the prefix
    \<open>priv\<close> (\<open>priv_reset\<close> is \<^verbatim>\<open>_reset\<close>), the field \<^verbatim>\<open>_abort_err\<close> is \<open>abort_err\<close>.
\<close>

subsection \<open>Data\<close>

datatype 'a go = Return 'a | Panic

record Userinfo =
  username :: string
  password :: string
  passwordSet :: bool

text \<open>The struct \<^verbatim>\<open>url.URL\<close> of net/url.\<close>

record url_URL =
  Scheme :: string
  Opaque :: string
  User :: "Userinfo option"
  Host :: string
  Path :: string
  RawPath :: string
  OmitHost :: bool
  ForceQuery :: bool
  RawQuery :: string
  Fragment :: string
  RawFragment :: string

definition zero_URL :: url_URL where
  "zero_URL = \<lparr>Scheme = [], Opaque = [], User = None, Host = [], Path = [], RawPath = [],
     OmitHost = False, ForceQuery = False, RawQuery = [], Fragment = [], RawFragment = []\<rparr>"

text \<open>
  What the code reads from and writes to a \<^verbatim>\<open>*fiber.Ctx\<close>: the wildcard capture
  \<^verbatim>\<open>Params("*")\<close>, the header \<^verbatim>\<open>Get("referer")\<close>, and the status code and body of the
  response under construction.
\<close>

record fiber_Ctx =
  Params_star :: string
  Get_referer :: string
  StatusCode :: nat
  ResponseBody :: string

record http_Client =
  Timeout :: int

record http_Request =
  Header :: "(string \<times> string) list"

text \<open>
  An upstream response; \<open>Resp_Body\<close> is what \<^verbatim>\<open>io.ReadAll(resp.Body)\<close> yields: the read
  error (\<open>Inl\<close>) or the whole body.
\<close>

record http_Response =
  Resp_StatusCode :: nat
  Resp_Body :: "string + string"

record ('q, 'r) ProxyChain =
  Ctx :: "nat option"
  URL :: "url_URL option"
  Client :: "http_Client option"
  Req :: "http_Request option"
  Resp :: "http_Response option"
  Body :: string
  reqMods :: "'q list"
  resMods :: "'r list"
  ruleset :: "nat option"
  verbose :: bool
  abort_err :: "string option"

text \<open>The state a call runs in: the chain \<^verbatim>\<open>*p\<close>, the fiber contexts and the log.\<close>

record ('q, 'r) sys =
  chain :: "('q, 'r) ProxyChain"
  ctxs :: "nat \<Rightarrow> fiber_Ctx"
  logged :: "string list"

text \<open>
  The environment: \<^verbatim>\<open>url.QueryUnescape\<close>, \<^verbatim>\<open>url.Parse\<close> (\<open>Inl\<close> the error message),
  \<^verbatim>\<open>(*URL).String\<close>, \<^verbatim>\<open>(*http.Client).Do\<close>, and the bodies of the modifiers. A
  modifier is a \<^verbatim>\<open>func(*ProxyChain) error\<close>: it returns an error or nil, or panics, and
  leaves a state behind.
\<close>

record ('q, 'r) env =
  QueryUnescape :: "string \<Rightarrow> string + string"
  Parse :: "string \<Rightarrow> string + url_URL"
  URL_String :: "url_URL \<Rightarrow> string"
  Client_Do :: "http_Client option \<Rightarrow> http_Request option \<Rightarrow> (string + http_Response) go"
  reqMod :: "'q \<Rightarrow> ('q, 'r) sys \<Rightarrow> string option go \<times> ('q, 'r) sys"
  resMod :: "'r \<Rightarrow> ('q, 'r) sys \<Rightarrow> string option go \<times> ('q, 'r) sys"

text \<open>
  What an execution did, in order: the request modifiers it called, the call of
  \<^verbatim>\<open>Client.Do\<close>, the response modifiers it called.
\<close>

datatype ('q, 'r) event = ReqModRun 'q | Dispatch | ResModRun 'r

subsection \<open>Field updates of the chain and of a fiber context\<close>

definition upd :: "(('q, 'r) ProxyChain \<Rightarrow> ('q, 'r) ProxyChain) \<Rightarrow> ('q, 'r) sys \<Rightarrow> ('q, 'r) sys" where
  "upd f s = s\<lparr>chain := f (chain s)\<rparr>"

definition SetStatusCode :: "nat \<Rightarrow> nat \<Rightarrow> ('q, 'r) sys \<Rightarrow> ('q, 'r) sys" where
  "SetStatusCode c n s = s\<lparr>ctxs := (ctxs s)(c := (ctxs s c)\<lparr>StatusCode := n\<rparr>)\<rparr>"

text \<open>\<^verbatim>\<open>Ctx.Send\<close> and \<^verbatim>\<open>Ctx.SendString\<close> set the response body and return nil.\<close>

definition Send :: "nat \<Rightarrow> string \<Rightarrow> ('q, 'r) sys \<Rightarrow> ('q, 'r) sys" where
  "Send c b s = s\<lparr>ctxs := (ctxs s)(c := (ctxs s c)\<lparr>ResponseBody := b\<rparr>)\<rparr>"

definition SendString :: "nat \<Rightarrow> string \<Rightarrow> ('q, 'r) sys \<Rightarrow> ('q, 'r) sys" where
  "SendString c b s = Send c b s"

definition log_Println :: "string \<Rightarrow> ('q, 'r) sys \<Rightarrow> ('q, 'r) sys" where
  "log_Println msg s = s\<lparr>logged := logged s @ [msg]\<rparr>"

definition strings_TrimPrefix :: "string \<Rightarrow> string \<Rightarrow> string" where
  "strings_TrimPrefix s pre = (if take (length pre) s = pre then drop (length pre) s else s)"

text \<open>The verb \<^verbatim>\<open>%v\<close> of fmt on an \<^verbatim>\<open>error\<close>: its message, or \<^verbatim>\<open><nil>\<close>.\<close>

definition fmt_v :: "string option \<Rightarrow> string" where
  "fmt_v e = (case e of None \<Rightarrow> ''<nil>'' | Some m \<Rightarrow> m)"

definition quoted :: "string \<Rightarrow> string" where
  "quoted x = [CHR 0x27] @ x @ [CHR 0x27]"

subsection \<open>The methods of ProxyChain\<close>

definition NewProxyChain :: "http_Client option \<Rightarrow> ('q, 'r) ProxyChain" where
  "NewProxyChain defaultClient = \<lparr>Ctx = None, URL = None, Client = defaultClient, Req = None,
     Resp = None, Body = [], reqMods = [], resMods = [], ruleset = None, verbose = False,
     abort_err = None\<rparr>"

definition SetReqMods :: "'q list \<Rightarrow> ('q, 'r) sys \<Rightarrow> ('q, 'r) sys" where
  "SetReqMods ms s = upd (\<lambda>p. p\<lparr>reqMods := ms\<rparr>) s"

definition AddReqMods :: "'q list \<Rightarrow> ('q, 'r) sys \<Rightarrow> ('q, 'r) sys" where
  "AddReqMods ms s = upd (\<lambda>p. p\<lparr>reqMods := reqMods p @ ms\<rparr>) s"

definition SetResMods :: "'r list \<Rightarrow> ('q, 'r) sys \<Rightarrow> ('q, 'r) sys" where
  "SetResMods ms s = upd (\<lambda>p. p\<lparr>resMods := ms\<rparr>) s"

definition AddResMods :: "'r list \<Rightarrow> ('q, 'r) sys \<Rightarrow> ('q, 'r) sys" where
  "AddResMods ms s = upd (\<lambda>p. p\<lparr>resMods := resMods p @ ms\<rparr>) s"

definition AddRuleset :: "nat option \<Rightarrow> ('q, 'r) sys \<Rightarrow> ('q, 'r) sys" where
  "AddRuleset rs s = upd (\<lambda>p. p\<lparr>ruleset := rs\<rparr>) s"

definition SetClient :: "http_Client option \<Rightarrow> ('q, 'r) sys \<Rightarrow> ('q, 'r) sys" where
  "SetClient c s = upd (\<lambda>p. p\<lparr>Client := c\<rparr>) s"

definition SetVerbose :: "('q, 'r) sys \<Rightarrow> ('q, 'r) sys" where
  "SetVerbose s = upd (\<lambda>p. p\<lparr>verbose := True\<rparr>) s"

definition priv_reset :: "('q, 'r) sys \<Rightarrow> ('q, 'r) sys" where
  "priv_reset s = upd (\<lambda>p. p\<lparr>abort_err := None, Body := [], Req := None, Resp := None,
     Ctx := None, URL := None\<rparr>) s"

text \<open>
  \<^verbatim>\<open>abort\<close>: the reset is deferred, so it also runs when \<^verbatim>\<open>p.Ctx.Response()\<close> or
  \<^verbatim>\<open>p.URL.String()\<close> dereferences nil.
\<close>

definition abort :: "('q, 'r) env \<Rightarrow> string \<Rightarrow> ('q, 'r) sys \<Rightarrow> string go \<times> ('q, 'r) sys" where
  "abort E err s =
     (let s1 = upd (\<lambda>p. p\<lparr>abort_err := Some err\<rparr>) s in
      case Ctx (chain s1) of
        None \<Rightarrow> (Panic, priv_reset s1)
      | Some c \<Rightarrow>
          let s2 = SetStatusCode c 500 s1 in
          (case URL (chain s2) of
             None \<Rightarrow> (Panic, priv_reset s2)
           | Some u \<Rightarrow>
               let e = ''ProxyChain error for '' @ quoted (URL_String E u) @ '': '' @ err;
                   s3 = SendString c e s2;
                   s4 = log_Println e s3
               in (Return e, priv_reset s4)))"

text \<open>
  The first lines of \<^verbatim>\<open>extractUrl\<close>: the capture URL-decoded, or the capture itself
  when decoding fails.
\<close>

definition unescaped :: "('q, 'r) env \<Rightarrow> string \<Rightarrow> string" where
  "unescaped E raw = (case QueryUnescape E raw of Inl err \<Rightarrow> raw | Inr d \<Rightarrow> d)"

definition extractUrl :: "('q, 'r) env \<Rightarrow> ('q, 'r) sys \<Rightarrow> string option go \<times> ('q, 'r) sys" where
  "extractUrl E s =
     (case Ctx (chain s) of
        None \<Rightarrow> (Panic, s)
      | Some c \<Rightarrow>
          let reqUrl = unescaped E (Params_star (ctxs s c)) in
          (case Parse E reqUrl of
             Inl err \<Rightarrow>
               (Return (Some (''error parsing request URL '' @ quoted reqUrl @ '': '' @ err)), s)
           | Inr urlQuery \<Rightarrow>
               let isRelativePath = (Scheme urlQuery = []) in
               if \<not> isRelativePath then (Return None, upd (\<lambda>p. p\<lparr>URL := Some urlQuery\<rparr>) s)
               else
                 (case Parse E (Get_referer (ctxs s c)) of
                    Inl err \<Rightarrow>
                      (Return (Some (''error parsing referer URL from req: '' @ quoted reqUrl
                          @ '': '' @ fmt_v (Some err))), s)
                  | Inr refererUrl \<Rightarrow>
                      if Host refererUrl = [] then
                        (Return (Some (''error parsing referer URL from req: '' @ quoted reqUrl
                            @ '': '' @ fmt_v None)), s)
                      else
                        (case Parse E (strings_TrimPrefix (Path refererUrl) ''/'') of
                           Inl err \<Rightarrow>
                             (Return (Some (''error parsing real URL from referer ''
                                 @ quoted (Path refererUrl) @ '': '' @ err)), s)
                         | Inr realUrl \<Rightarrow>
                             let u = zero_URL\<lparr>Scheme := Scheme realUrl, Host := Host realUrl,
                                       Path := Path urlQuery, RawQuery := RawQuery urlQuery\<rparr>;
                                 s1 = upd (\<lambda>p. p\<lparr>URL := Some u\<rparr>) s;
                                 isRelativePath = (Scheme urlQuery = []) in
                             if isRelativePath then
                               (Return (Some (''ProxyChain failed to extract url from relative path: ''
                                   @ quoted reqUrl)), s1)
                             else if verbose (chain s1) then
                               (Return None, log_Println (''modified relative URL: '' @ quoted reqUrl
                                   @ '' -> '' @ quoted (URL_String E u)) s1)
                             else (Return None, s1)))))"

definition SetCtx :: "('q, 'r) env \<Rightarrow> nat option \<Rightarrow> ('q, 'r) sys \<Rightarrow> unit go \<times> ('q, 'r) sys" where
  "SetCtx E ctx s =
     (case extractUrl E (upd (\<lambda>p. p\<lparr>Ctx := ctx\<rparr>) s) of
        (Panic, s1) \<Rightarrow> (Panic, s1)
      | (Return None, s1) \<Rightarrow> (Return (), s1)
      | (Return (Some err), s1) \<Rightarrow>
          (case abort E err s1 of
             (Panic, s2) \<Rightarrow> (Panic, s2)
           | (Return e, s2) \<Rightarrow> (Return (), upd (\<lambda>p. p\<lparr>abort_err := Some e\<rparr>) s2)))"

definition priv_validate_ctx_is_set :: "('q, 'r) env \<Rightarrow> ('q, 'r) sys \<Rightarrow> unit go \<times> ('q, 'r) sys" where
  "priv_validate_ctx_is_set E s =
     (if Ctx (chain s) \<noteq> None then (Return (), s)
      else
        (case abort E ''proxyChain was called without setting a fiber Ctx. Use ProxyChain.SetCtx()'' s of
           (Panic, s1) \<Rightarrow> (Panic, s1)
         | (Return e, s1) \<Rightarrow> (Return (), upd (\<lambda>p. p\<lparr>abort_err := Some e\<rparr>) s1)))"

text \<open>
  The loops of \<^verbatim>\<open>_execute\<close>. A Go \<^verbatim>\<open>range\<close> loop evaluates its range expression once:
  the loop runs over the slice header that \<^verbatim>\<open>p.reqMods\<close> held when the loop began, so
  the list argument is that snapshot while the modifiers act on the state.
\<close>

fun apply_reqMods :: "('q, 'r) env \<Rightarrow> 'q list \<Rightarrow> ('q, 'r) sys \<Rightarrow>
    ('q, 'r) event list \<times> string option go \<times> ('q, 'r) sys" where
  "apply_reqMods E [] s = ([], Return None, s)"
| "apply_reqMods E (m # ms) s =
     (case reqMod E m s of
        (Panic, s1) \<Rightarrow> ([ReqModRun m], Panic, s1)
      | (Return (Some err), s1) \<Rightarrow>
          (case abort E err s1 of
             (Panic, s2) \<Rightarrow> ([ReqModRun m], Panic, s2)
           | (Return e, s2) \<Rightarrow> ([ReqModRun m], Return (Some e), s2))
      | (Return None, s1) \<Rightarrow>
          (case apply_reqMods E ms s1 of (tr, res, s2) \<Rightarrow> (ReqModRun m # tr, res, s2)))"

fun apply_resMods :: "('q, 'r) env \<Rightarrow> 'r list \<Rightarrow> ('q, 'r) sys \<Rightarrow>
    ('q, 'r) event list \<times> string option go \<times> ('q, 'r) sys" where
  "apply_resMods E [] s = ([], Return None, s)"
| "apply_resMods E (m # ms) s =
     (case resMod E m s of
        (Panic, s1) \<Rightarrow> ([ResModRun m], Panic, s1)
      | (Return (Some err), s1) \<Rightarrow>
          (case abort E err s1 of
             (Panic, s2) \<Rightarrow> ([ResModRun m], Panic, s2)
           | (Return e, s2) \<Rightarrow> ([ResModRun m], Return (Some e), s2))
      | (Return None, s1) \<Rightarrow>
          (case apply_resMods E ms s1 of (tr, res, s2) \<Rightarrow> (ResModRun m # tr, res, s2)))"

text \<open>
  The second half of \<^verbatim>\<open>_execute\<close>: send the request upstream, buffer the response,
  apply the response modifiers. (The deferred \<^verbatim>\<open>resp.Body.Close()\<close> acts on the upstream
  connection only.)
\<close>

definition send_upstream :: "('q, 'r) env \<Rightarrow> ('q, 'r) sys \<Rightarrow>
    ('q, 'r) event list \<times> string option go \<times> ('q, 'r) sys" where
  "send_upstream E s =
     (case Client_Do E (Client (chain s)) (Req (chain s)) of
        Panic \<Rightarrow> ([Dispatch], Panic, s)
      | Return (Inl err) \<Rightarrow>
          (case abort E err s of
             (Panic, s1) \<Rightarrow> ([Dispatch], Panic, s1)
           | (Return e, s1) \<Rightarrow> ([Dispatch], Return (Some e), s1))
      | Return (Inr resp) \<Rightarrow>
          let s1 = upd (\<lambda>p. p\<lparr>Resp := Some resp\<rparr>) s in
          (case Resp_Body resp of
             Inl err \<Rightarrow>
               (case abort E err s1 of
                  (Panic, s2) \<Rightarrow> ([Dispatch], Panic, s2)
                | (Return e, s2) \<Rightarrow> ([Dispatch], Return (Some e), s2))
           | Inr body \<Rightarrow>
               let s2 = upd (\<lambda>p. p\<lparr>Body := body\<rparr>) s1 in
               (case apply_resMods E (resMods (chain s2)) s2 of
                  (tr, res, s3) \<Rightarrow> (Dispatch # tr, res, s3))))"

text \<open>
  \<^verbatim>\<open>_execute\<close> returns \<^verbatim>\<open>(nil, err)\<close> or \<^verbatim>\<open>(&p.Body, nil)\<close>: the model returns the error,
  and the caller reads \<open>Body\<close> through the pointer.
\<close>

definition priv_execute :: "('q, 'r) env \<Rightarrow> ('q, 'r) sys \<Rightarrow>
    ('q, 'r) event list \<times> string option go \<times> ('q, 'r) sys" where
  "priv_execute E s =
     (case priv_validate_ctx_is_set E s of
        (Panic, s0) \<Rightarrow> ([], Panic, s0)
      | (Return x, s0) \<Rightarrow>
          if abort_err (chain s0) \<noteq> None then ([], Return (abort_err (chain s0)), s0)
          else if Ctx (chain s0) = None then
            ([], Return (Some ''request ctx not set. Use ProxyChain.SetCtx()''), s0)
          else
            (case URL (chain s0) of
               None \<Rightarrow> ([], Panic, s0)
             | Some u \<Rightarrow>
                 if Scheme u = [] then
                   ([], Return (Some ''request url not set or invalid. Check ProxyChain ReqMods for issues''), s0)
                 else
                   (case apply_reqMods E (reqMods (chain s0)) s0 of
                      (tr, Panic, s1) \<Rightarrow> (tr, Panic, s1)
                    | (tr, Return (Some e), s1) \<Rightarrow> (tr, Return (Some e), s1)
                    | (tr, Return None, s1) \<Rightarrow>
                        (case send_upstream E s1 of (tr2, res, s2) \<Rightarrow> (tr @ tr2, res, s2)))))"

definition Execute :: "('q, 'r) env \<Rightarrow> ('q, 'r) sys \<Rightarrow>
    ('q, 'r) event list \<times> string option go \<times> ('q, 'r) sys" where
  "Execute E s =
     (case priv_execute E s of
        (tr, Panic, s1) \<Rightarrow> (tr, Panic, priv_reset s1)
      | (tr, Return (Some err), s1) \<Rightarrow> (tr, Return (Some err), priv_reset s1)
      | (tr, Return None, s1) \<Rightarrow>
          (case Ctx (chain s1) of
             None \<Rightarrow> (tr, Panic, priv_reset s1)
           | Some c \<Rightarrow> (tr, Return None, priv_reset (Send c (Body (chain s1)) s1))))"

definition ExecuteAPIContent :: "('q, 'r) env \<Rightarrow> ('q, 'r) sys \<Rightarrow>
    ('q, 'r) event list \<times> string option go \<times> ('q, 'r) sys" where
  "ExecuteAPIContent E s =
     (case priv_execute E s of
        (tr, Panic, s1) \<Rightarrow> (tr, Panic, priv_reset s1)
      | (tr, Return (Some err), s1) \<Rightarrow> (tr, Return (Some err), priv_reset s1)
      | (tr, Return None, s1) \<Rightarrow>
          (case Ctx (chain s1) of
             None \<Rightarrow> (tr, Panic, priv_reset s1)
           | Some c \<Rightarrow> (tr, Return None, priv_reset (Send c (Body (chain s1)) s1))))"

text \<open>
  One exchange as the type's documentation writes it
  (\<^verbatim>\<open>NewProxyChain().SetCtx(ctx)...Execute()\<close>): bind the context, then execute; a panic
  in \<^verbatim>\<open>SetCtx\<close> ends the exchange.
\<close>

definition exchange :: "('q, 'r) env \<Rightarrow> nat option \<Rightarrow> ('q, 'r) sys \<Rightarrow>
    ('q, 'r) event list \<times> string option go \<times> ('q, 'r) sys" where
  "exchange E ctx s =
     (case SetCtx E ctx s of
        (Panic, s1) \<Rightarrow> ([], Panic, s1)
      | (Return x, s1) \<Rightarrow> Execute E s1)"

subsection \<open>The request modifier RequestArchiveIs\<close>

definition archivistUrl :: string where
  "archivistUrl = ''https://archive.is/latest/''"

text \<open>
  \<open>doh\<close> is the modifier that \<^verbatim>\<open>ResolveWithGoogleDoH()\<close> returns; its body is a parameter
  like that of every other modifier.
\<close>

definition RequestArchiveIs :: "('q, 'r) env \<Rightarrow> 'q \<Rightarrow> ('q, 'r) sys \<Rightarrow>
    string option go \<times> ('q, 'r) sys" where
  "RequestArchiveIs E doh s =
     (case URL (chain s) of
        None \<Rightarrow> (Panic, s)
      | Some u \<Rightarrow>
          let u0 = u\<lparr>RawQuery := []\<rparr>;
              s1 = upd (\<lambda>p. p\<lparr>URL := Some u0\<rparr>) s;
              newURLString = archivistUrl @ URL_String E u0 in
          (case Parse E newURLString of
             Inl err \<Rightarrow> (Return (Some err), s1)
           | Inr newURL \<Rightarrow>
               let s2 = AddReqMods [doh] s1 in
               (Return None, upd (\<lambda>p. p\<lparr>URL := Some newURL\<rparr>) s2)))"

subsection \<open>Per-exchange state and configuration\<close>

text \<open>
  The fields that belong to one exchange are all nil, and the fields that configure the
  pipeline (modifier lists, client, rule set, verbosity).
\<close>

definition cleared :: "('q, 'r) ProxyChain \<Rightarrow> bool" where
  "cleared p \<longleftrightarrow> Ctx p = None \<and> URL p = None \<and> Req p = None \<and> Resp p = None
     \<and> Body p = [] \<and> abort_err p = None"

definition config :: "('q, 'r) ProxyChain \<Rightarrow>
    'q list \<times> 'r list \<times> http_Client option \<times> nat option \<times> bool" where
  "config p = (reqMods p, resMods p, Client p, ruleset p, verbose p)"

text \<open>The state an execution ends in.\<close>

definition final :: "('q, 'r) event list \<times> string option go \<times> ('q, 'r) sys \<Rightarrow> ('q, 'r) sys" where
  "final x = snd (snd x)"

definition outcome :: "('q, 'r) event list \<times> string option go \<times> ('q, 'r) sys \<Rightarrow> string option go" where
  "outcome x = fst (snd x)"

definition trace :: "('q, 'r) event list \<times> string option go \<times> ('q, 'r) sys \<Rightarrow> ('q, 'r) event list" where
  "trace x = fst x"

subsection \<open>A concrete environment for the scenarios\<close>

text \<open>
  The scenarios of the specification need values of the library functions. \<open>fx_Parse\<close>
  tabulates \<^verbatim>\<open>url.Parse\<close> at the strings the scenarios use (every other string is
  answered with an error and is not used); \<open>fx_QueryUnescape\<close> is \<^verbatim>\<open>url.QueryUnescape\<close>
  on strings without \<^verbatim>\<open>%\<close> and \<^verbatim>\<open>+\<close>, which it returns as they are; \<open>fx_String\<close> is
  \<^verbatim>\<open>(*URL).String\<close> on a URL that has a scheme, a host, a path starting with a slash
  and at most a query; \<open>fx_Do\<close> answers every request with one page and dereferences
  a nil client or a nil request, as \<^verbatim>\<open>(*http.Client).Do\<close> does.
\<close>

definition fx_QueryUnescape :: "string \<Rightarrow> string + string" where
  "fx_QueryUnescape x = Inr x"

definition fx_Parse :: "string \<Rightarrow> string + url_URL" where
  "fx_Parse x =
     (if x = [] then Inr zero_URL
      else if x = ''/images/pic.png'' then Inr (zero_URL\<lparr>Path := ''/images/pic.png''\<rparr>)
      else if x = ''https://proxyhost/https://example.com/page'' then
        Inr (zero_URL\<lparr>Scheme := ''https'', Host := ''proxyhost'', Path := ''/https://example.com/page''\<rparr>)
      else if x = ''https://example.com/page'' then
        Inr (zero_URL\<lparr>Scheme := ''https'', Host := ''example.com'', Path := ''/page''\<rparr>)
      else if x = ''https://example.com/a?x=1'' then
        Inr (zero_URL\<lparr>Scheme := ''https'', Host := ''example.com'', Path := ''/a'', RawQuery := ''x=1''\<rparr>)
      else if x = ''https://archive.is/latest/https://example.com/a'' then
        Inr (zero_URL\<lparr>Scheme := ''https'', Host := ''archive.is'',
               Path := ''/latest/https://example.com/a''\<rparr>)
      else Inl (''parse: '' @ x))"

definition fx_String :: "url_URL \<Rightarrow> string" where
  "fx_String u = Scheme u @ ''://'' @ Host u @ Path u
     @ (if RawQuery u = [] then [] else ''?'' @ RawQuery u)"

definition fx_page :: http_Response where
  "fx_page = \<lparr>Resp_StatusCode = 200, Resp_Body = Inr ''upstream page''\<rparr>"

fun fx_Do :: "http_Client option \<Rightarrow> http_Request option \<Rightarrow> (string + http_Response) go" where
  "fx_Do (Some c) (Some r) = Return (Inr fx_page)"
| "fx_Do c r = Panic"

text \<open>
  The modifiers of the scenarios: \<^verbatim>\<open>RequestArchiveIs()\<close>, the modifier it appends, a
  modifier that builds the outbound request, one that fails, and the response modifiers
  \<^verbatim>\<open>BypassCSP()\<close>, which appends four modifiers to the response-modifier list, and
  \<^verbatim>\<open>ModifyResponseHeader(key, value)\<close>, which dereferences the context and writes a
  response header (the headers are not part of \<open>fiber_Ctx\<close>).
\<close>

datatype fx_req = FxArchiveIs | FxGoogleDoH | FxBuildReq | FxFailing

datatype fx_res = FxBypassCSP | FxModifyResponseHeader string string

definition fx_lib :: "(fx_req, fx_res) env" where
  "fx_lib = \<lparr>QueryUnescape = fx_QueryUnescape, Parse = fx_Parse, URL_String = fx_String,
     Client_Do = fx_Do, reqMod = (\<lambda>m s. (Return None, s)), resMod = (\<lambda>m s. (Return None, s))\<rparr>"

fun fx_reqMod :: "fx_req \<Rightarrow> (fx_req, fx_res) sys \<Rightarrow> string option go \<times> (fx_req, fx_res) sys" where
  "fx_reqMod FxArchiveIs s = RequestArchiveIs fx_lib FxGoogleDoH s"
| "fx_reqMod FxGoogleDoH s = (Return None, s)"
| "fx_reqMod FxBuildReq s = (Return None, upd (\<lambda>p. p\<lparr>Req := Some \<lparr>Header = []\<rparr>\<rparr>) s)"
| "fx_reqMod FxFailing s = (Return (Some ''modifier failed''), s)"

fun fx_resMod :: "fx_res \<Rightarrow> (fx_req, fx_res) sys \<Rightarrow> string option go \<times> (fx_req, fx_res) sys" where
  "fx_resMod FxBypassCSP s =
     (Return None, AddResMods
        [FxModifyResponseHeader ''Access-Control-Allow-Origin'' ''*'',
         FxModifyResponseHeader ''Access-Control-Expose-Headers'' ''*'',
         FxModifyResponseHeader ''Access-Control-Allow-Credentials'' ''true'',
         FxModifyResponseHeader ''Access-Control-Allow-Methods'' []] s)"
| "fx_resMod (FxModifyResponseHeader key v) s =
     (case Ctx (chain s) of None \<Rightarrow> (Panic, s) | Some c \<Rightarrow> (Return None, s))"

definition fx :: "(fx_req, fx_res) env" where
  "fx = fx_lib\<lparr>reqMod := fx_reqMod, resMod := fx_resMod\<rparr>"

text \<open>
  A new chain with the default client and the given request modifiers, and a store in
  which every address holds a context with the given capture and referer.
\<close>

definition fx_sys :: "fx_req list \<Rightarrow> string \<Rightarrow> string \<Rightarrow> (fx_req, fx_res) sys" where
  "fx_sys ms capture referer =
     \<lparr>chain = (NewProxyChain (Some \<lparr>Timeout = 15\<rparr>))\<lparr>reqMods := ms\<rparr>,
      ctxs = (\<lambda>a. \<lparr>Params_star = capture, Get_referer = referer, StatusCode = 200,
                     ResponseBody = []\<rparr>),
      logged = []\<rparr>"

section \<open>Properties\<close>

lemmas rec_defs = upd_def SetStatusCode_def Send_def SendString_def log_Println_def
  priv_reset_def AddReqMods_def AddResMods_def

lemmas fx_defs = fx_def fx_lib_def fx_sys_def fx_Parse_def fx_String_def fx_QueryUnescape_def
  fx_page_def zero_URL_def NewProxyChain_def unescaped_def quoted_def fmt_v_def strings_TrimPrefix_def
  archivistUrl_def

lemmas run_defs = extractUrl_def SetCtx_def abort_def priv_validate_ctx_is_set_def send_upstream_def
  priv_execute_def Execute_def ExecuteAPIContent_def exchange_def RequestArchiveIs_def
  trace_def outcome_def final_def config_def cleared_def

subsection \<open>abort and the reset\<close>

lemma abort_no_ctx:
  "Ctx (chain s) = None \<Longrightarrow> fst (abort E err s) = Panic"
  by (simp add: abort_def rec_defs)

lemma abort_sends:
  assumes "Ctx (chain s) = Some c" and "URL (chain s) = Some u"
  shows "abort E err s =
    (Return (''ProxyChain error for '' @ quoted (URL_String E u) @ '': '' @ err),
     priv_reset (log_Println (''ProxyChain error for '' @ quoted (URL_String E u) @ '': '' @ err)
       (SendString c (''ProxyChain error for '' @ quoted (URL_String E u) @ '': '' @ err)
         (SetStatusCode c 500 (upd (\<lambda>p. p\<lparr>abort_err := Some err\<rparr>) s)))))"
  using assms by (simp add: abort_def rec_defs Let_def)

lemma abort_cleared: "cleared (chain (snd (abort E err s)))"
  by (simp add: abort_def rec_defs Let_def cleared_def split: option.splits)

lemma abort_config: "config (chain (snd (abort E err s))) = config (chain s)"
  by (simp add: abort_def rec_defs Let_def config_def split: option.splits)

lemma abort_reqMods: "reqMods (chain (snd (abort E err s))) = reqMods (chain s)"
  by (simp add: abort_def rec_defs Let_def split: option.splits)

lemma abort_no_ctxD: "abort E err s = (r, s') \<Longrightarrow> Ctx (chain s) = None \<Longrightarrow> r = Panic"
  by (simp add: abort_def rec_defs)

lemma abort_configD: "abort E err s = (r, s') \<Longrightarrow> config (chain s') = config (chain s)"
  using abort_config [of E err s] by simp

lemma abort_reqModsD: "abort E err s = (r, s') \<Longrightarrow> reqMods (chain s') = reqMods (chain s)"
  using abort_reqMods [of E err s] by simp

lemma abort_clearedD: "abort E err s = (r, s') \<Longrightarrow> cleared (chain s')"
  using abort_cleared [of E err s] by simp

lemma reset_cleared: "cleared (chain (priv_reset s))"
  by (simp add: rec_defs cleared_def)

lemma reset_config: "config (chain (priv_reset s)) = config (chain s)"
  by (simp add: rec_defs config_def)


lemma abort_without_URL:
  "Ctx (chain s) = Some c \<Longrightarrow> URL (chain s) = None \<Longrightarrow>
     fst (abort E err s) = Panic
     \<and> ResponseBody (ctxs (snd (abort E err s)) c) = ResponseBody (ctxs s c)"
  by (simp add: abort_def rec_defs)

subsection \<open>URL resolution\<close>


lemma extractUrl_relative_fails:
  assumes "Ctx (chain s) = Some c"
    and "Parse E (unescaped E (Params_star (ctxs s c))) = Inr u"
    and "Scheme u = []"
  shows "fst (extractUrl E s) \<noteq> Return None"
  using assms by (simp add: extractUrl_def Let_def split: sum.splits)

lemma extractUrl_bad_referer:
  assumes "Ctx (chain s) = Some c"
    and "Parse E (unescaped E (Params_star (ctxs s c))) = Inr u"
    and "Scheme u = []"
    and "case Parse E (Get_referer (ctxs s c)) of Inl e \<Rightarrow> True | Inr r \<Rightarrow> Host r = []"
  shows "extractUrl E s =
    (Return (Some (''error parsing referer URL from req: ''
        @ quoted (unescaped E (Params_star (ctxs s c))) @ '': ''
        @ fmt_v (case Parse E (Get_referer (ctxs s c)) of Inl e \<Rightarrow> Some e | Inr r \<Rightarrow> None))), s)"
  using assms by (auto simp: extractUrl_def Let_def split: sum.splits)

lemma extractUrl_reqMods: "reqMods (chain (snd (extractUrl E s))) = reqMods (chain s)"
  by (simp add: extractUrl_def Let_def rec_defs split: option.splits sum.splits)


subsection \<open>The modifier loops\<close>

lemma apply_reqMods_cases:
  "apply_reqMods E ms s = (tr, res, s') \<Longrightarrow>
     (\<exists>k. tr = map ReqModRun (take k ms)) \<and> (res = Return None \<longrightarrow> tr = map ReqModRun ms)"
proof (induction ms arbitrary: s tr res s')
  case Nil
  then show ?case by simp
next
  case (Cons m ms)
  show ?case
  proof (cases "reqMod E m s")
    case (Pair r s1)
    show ?thesis
    proof (cases r)
      case Panic
      with Pair Cons.prems have "tr = [ReqModRun m]" "res = Panic" by auto
      then show ?thesis by (auto intro: exI [of _ 1])
    next
      case (Return e)
      show ?thesis
      proof (cases e)
        case (Some err)
        with Pair Return Cons.prems have "tr = [ReqModRun m]" "res \<noteq> Return None"
          by (auto split: prod.splits go.splits)
        then show ?thesis by (auto intro: exI [of _ 1])
      next
        case None
        obtain tr2 res2 s2 where rest: "apply_reqMods E ms s1 = (tr2, res2, s2)"
          by (cases "apply_reqMods E ms s1") auto
        with Pair Return None Cons.prems have eq: "tr = ReqModRun m # tr2" "res = res2" by auto
        from Cons.IH [OF rest] obtain k where k: "tr2 = map ReqModRun (take k ms)"
          and full: "res2 = Return None \<longrightarrow> tr2 = map ReqModRun ms" by blast
        from eq k have "tr = map ReqModRun (take (Suc k) (m # ms))" by simp
        then have A: "\<exists>k. tr = map ReqModRun (take k (m # ms))" ..
        from eq full have B: "res = Return None \<longrightarrow> tr = map ReqModRun (m # ms)" by simp
        from A B show ?thesis ..
      qed
    qed
  qed
qed

lemma apply_reqMods_append:
  "apply_reqMods E pre s = (tr, Return None, s1) \<Longrightarrow>
   apply_reqMods E (pre @ ms) s =
     (case apply_reqMods E ms s1 of (tr2, res, s2) \<Rightarrow> (tr @ tr2, res, s2))"
proof (induction pre arbitrary: s tr)
  case Nil
  then show ?case by (simp split: prod.splits)
next
  case (Cons m pre)
  then show ?case
    by (auto split: prod.splits go.splits option.splits)
qed

lemma apply_reqMods_fail_at:
  assumes "apply_reqMods E pre s = (tr, Return None, s1)"
    and "reqMod E m s1 = (Return (Some err), s2)"
  shows "fst (apply_reqMods E (pre @ m # post) s) = map ReqModRun (pre @ [m])"
    and "fst (snd (apply_reqMods E (pre @ m # post) s)) \<noteq> Return None"
  using assms apply_reqMods_cases [OF assms(1)]
  by (auto simp: apply_reqMods_append split: prod.splits go.splits)

lemma apply_reqMods_config:
  assumes "\<forall>m \<in> set ms. \<forall>t. config (chain (snd (reqMod E m t))) = config (chain t)"
  shows "config (chain (snd (snd (apply_reqMods E ms s)))) = config (chain s)"
  using assms
proof (induction ms arbitrary: s)
  case Nil
  then show ?case by simp
next
  case (Cons m ms)
  have step: "config (chain (snd (reqMod E m s))) = config (chain s)" using Cons.prems by simp
  have rest: "\<forall>m \<in> set ms. \<forall>t. config (chain (snd (reqMod E m t))) = config (chain t)"
    using Cons.prems by simp
  note IH = Cons.IH [OF rest]
  show ?case
  proof (cases "reqMod E m s")
    case (Pair r s1)
    with step have s1: "config (chain s1) = config (chain s)" by simp
    show ?thesis
    proof (cases r)
      case Panic
      with Pair s1 show ?thesis by simp
    next
      case (Return e)
      show ?thesis
      proof (cases e)
        case None
        with Pair Return s1 IH [of s1] show ?thesis by (auto split: prod.splits)
      next
        case (Some err)
        with Pair Return s1 abort_config [of E err s1] show ?thesis
          by (auto split: prod.splits go.splits)
      qed
    qed
  qed
qed

lemma apply_resMods_config:
  assumes "\<forall>m \<in> set ms. \<forall>t. config (chain (snd (resMod E m t))) = config (chain t)"
  shows "config (chain (snd (snd (apply_resMods E ms s)))) = config (chain s)"
  using assms
proof (induction ms arbitrary: s)
  case Nil
  then show ?case by simp
next
  case (Cons m ms)
  have step: "config (chain (snd (resMod E m s))) = config (chain s)" using Cons.prems by simp
  have rest: "\<forall>m \<in> set ms. \<forall>t. config (chain (snd (resMod E m t))) = config (chain t)"
    using Cons.prems by simp
  note IH = Cons.IH [OF rest]
  show ?case
  proof (cases "resMod E m s")
    case (Pair r s1)
    with step have s1: "config (chain s1) = config (chain s)" by simp
    show ?thesis
    proof (cases r)
      case Panic
      with Pair s1 show ?thesis by simp
    next
      case (Return e)
      show ?thesis
      proof (cases e)
        case None
        with Pair Return s1 IH [of s1] show ?thesis by (auto split: prod.splits)
      next
        case (Some err)
        with Pair Return s1 abort_config [of E err s1] show ?thesis
          by (auto split: prod.splits go.splits)
      qed
    qed
  qed
qed

lemma apply_resMods_cases:
  "apply_resMods E ms s = (tr, res, s') \<Longrightarrow> \<exists>k. tr = map ResModRun (take k ms)"
proof (induction ms arbitrary: s tr res s')
  case Nil
  then show ?case by simp
next
  case (Cons m ms)
  show ?case
  proof (cases "resMod E m s")
    case (Pair r s1)
    show ?thesis
    proof (cases r)
      case Panic
      with Pair Cons.prems have "tr = [ResModRun m]" by auto
      then show ?thesis by (auto intro: exI [of _ 1])
    next
      case (Return e)
      show ?thesis
      proof (cases e)
        case (Some err)
        with Pair Return Cons.prems have "tr = [ResModRun m]"
          by (auto split: prod.splits go.splits)
        then show ?thesis by (auto intro: exI [of _ 1])
      next
        case None
        obtain tr2 res2 s2 where rest: "apply_resMods E ms s1 = (tr2, res2, s2)"
          by (cases "apply_resMods E ms s1") auto
        with Pair Return None Cons.prems have eq: "tr = ResModRun m # tr2" by auto
        from Cons.IH [OF rest] obtain k where k: "tr2 = map ResModRun (take k ms)" by blast
        from eq k have "tr = map ResModRun (take (Suc k) (m # ms))" by simp
        then show ?thesis ..
      qed
    qed
  qed
qed

lemma apply_resMods_events:
  "apply_resMods E ms t = (tr, res, t') \<Longrightarrow> e \<in> set tr \<Longrightarrow> \<exists>r. e = ResModRun r"
  by (drule apply_resMods_cases) auto



subsection \<open>Dispatch and execution\<close>

lemma send_upstream_config:
  assumes "\<forall>m \<in> set (resMods (chain s)). \<forall>t. config (chain (snd (resMod E m t))) = config (chain t)"
  shows "config (chain (snd (snd (send_upstream E s)))) = config (chain s)"
proof (cases "Client_Do E (Client (chain s)) (Req (chain s))")
  case Panic
  then show ?thesis by (simp add: send_upstream_def)
next
  case (Return x)
  show ?thesis
  proof (cases x)
    case (Inl err)
    with Return abort_config [of E err s] show ?thesis
      by (auto simp: send_upstream_def split: prod.splits go.splits)
  next
    case (Inr resp)
    note resp = this
    let ?s1 = "upd (\<lambda>p. p\<lparr>Resp := Some resp\<rparr>) s"
    have s1: "config (chain ?s1) = config (chain s)" by (simp add: upd_def config_def)
    show ?thesis
    proof (cases "Resp_Body resp")
      case (Inl err)
      with Return resp s1 abort_config [of E err ?s1] show ?thesis
        by (auto simp: send_upstream_def Let_def split: prod.splits go.splits)
    next
      case (Inr body)
      let ?s2 = "upd (\<lambda>p. p\<lparr>Body := body\<rparr>) ?s1"
      have s2: "config (chain ?s2) = config (chain s)" by (simp add: upd_def config_def)
      have l2: "resMods (chain ?s2) = resMods (chain s)" by (simp add: upd_def)
      from assms l2
      have "\<forall>m \<in> set (resMods (chain ?s2)). \<forall>t. config (chain (snd (resMod E m t))) = config (chain t)"
        by simp
      from apply_resMods_config [OF this, of ?s2] s2
      have "config (chain (snd (snd (apply_resMods E (resMods (chain ?s2)) ?s2)))) = config (chain s)"
        by simp
      with Return resp Inr show ?thesis
        by (auto simp: send_upstream_def Let_def split: prod.splits)
    qed
  qed
qed


lemma send_upstream_trace:
  "\<exists>tr. fst (send_upstream E s) = Dispatch # tr \<and> (\<forall>e \<in> set tr. \<exists>r. e = ResModRun r)"
  by (auto simp: send_upstream_def Let_def split: go.splits sum.splits prod.splits
      dest: apply_resMods_events)

lemma validate_with_ctx:
  "Ctx (chain s) = Some c \<Longrightarrow> priv_validate_ctx_is_set E s = (Return (), s)"
  by (simp add: priv_validate_ctx_is_set_def)

lemma validate_without_ctx:
  "Ctx (chain s) = None \<Longrightarrow> fst (priv_validate_ctx_is_set E s) = Panic"
  by (auto simp: priv_validate_ctx_is_set_def split: prod.splits go.splits dest: abort_no_ctxD)

lemma validate_config: "config (chain (snd (priv_validate_ctx_is_set E s))) = config (chain s)"
  by (auto simp: priv_validate_ctx_is_set_def split: prod.splits go.splits
      dest: abort_configD abort_no_ctxD)

lemma priv_execute_ready:
  assumes "Ctx (chain s) = Some c" and "abort_err (chain s) = None"
    and "URL (chain s) = Some u" and "Scheme u \<noteq> []"
  shows "priv_execute E s =
    (case apply_reqMods E (reqMods (chain s)) s of
       (tr, Panic, s1) \<Rightarrow> (tr, Panic, s1)
     | (tr, Return (Some e), s1) \<Rightarrow> (tr, Return (Some e), s1)
     | (tr, Return None, s1) \<Rightarrow>
         (case send_upstream E s1 of (tr2, res, s2) \<Rightarrow> (tr @ tr2, res, s2)))"
  using assms by (simp add: priv_execute_def validate_with_ctx)

lemma priv_execute_without_ctx:
  "Ctx (chain s) = None \<Longrightarrow> fst (priv_execute E s) = [] \<and> fst (snd (priv_execute E s)) = Panic"
  using validate_without_ctx [of s E]
  by (auto simp: priv_execute_def split: prod.splits go.splits)

lemma Execute_without_ctx:
  "Ctx (chain s) = None \<Longrightarrow> trace (Execute E s) = [] \<and> outcome (Execute E s) = Panic"
  using priv_execute_without_ctx [of s E]
  by (auto simp: Execute_def trace_def outcome_def split: prod.splits go.splits option.splits)

lemma priv_execute_config:
  assumes "\<forall>m \<in> set (reqMods (chain s)). \<forall>t. config (chain (snd (reqMod E m t))) = config (chain t)"
    and "\<forall>r \<in> set (resMods (chain s)). \<forall>t. config (chain (snd (resMod E r t))) = config (chain t)"
  shows "config (chain (snd (snd (priv_execute E s)))) = config (chain s)"
proof -
  obtain x s0 where v: "priv_validate_ctx_is_set E s = (x, s0)"
    by (cases "priv_validate_ctx_is_set E s") auto
  with validate_config [of E s] have s0: "config (chain s0) = config (chain s)" by simp
  then have q0: "reqMods (chain s0) = reqMods (chain s)" by (simp add: config_def)
  obtain tr res s1 where r: "apply_reqMods E (reqMods (chain s0)) s0 = (tr, res, s1)"
    by (cases "apply_reqMods E (reqMods (chain s0)) s0") auto
  from assms(1) q0
  have "\<forall>m \<in> set (reqMods (chain s0)). \<forall>t. config (chain (snd (reqMod E m t))) = config (chain t)"
    by simp
  from apply_reqMods_config [OF this, of s0] r s0
  have s1: "config (chain s1) = config (chain s)" by simp
  then have r1: "resMods (chain s1) = resMods (chain s)" by (simp add: config_def)
  from assms(2) r1
  have "\<forall>r \<in> set (resMods (chain s1)). \<forall>t. config (chain (snd (resMod E r t))) = config (chain t)"
    by simp
  from send_upstream_config [OF this] s1
  have s2: "config (chain (snd (snd (send_upstream E s1)))) = config (chain s)" by simp
  from v s0 r s1 s2 show ?thesis
    by (auto simp: priv_execute_def split: prod.splits go.splits option.splits)
qed

lemma priv_execute_then_reset_cleared:
  "cleared (chain (final (Execute E s))) \<and> cleared (chain (final (ExecuteAPIContent E s)))"
  by (auto simp: Execute_def ExecuteAPIContent_def final_def reset_cleared
      split: prod.splits go.splits option.splits)

lemma Execute_final_config:
  "config (chain (final (Execute E s))) = config (chain (snd (snd (priv_execute E s))))
   \<and> config (chain (final (ExecuteAPIContent E s))) = config (chain (snd (snd (priv_execute E s))))"
  by (auto simp: Execute_def ExecuteAPIContent_def final_def rec_defs config_def
      split: prod.splits go.splits option.splits)


lemma priv_execute_trace:
  "\<exists>k tr. fst (priv_execute E s) = map ReqModRun (take k (reqMods (chain s))) @ tr
      \<and> (\<forall>e \<in> set tr. \<forall>q. e \<noteq> ReqModRun q)"
proof (cases "Ctx (chain s)")
  case None
  from priv_execute_without_ctx [OF this, of E] show ?thesis by simp
next
  case (Some c)
  note v = validate_with_ctx [OF Some, of E]
  show ?thesis
  proof (cases "abort_err (chain s) = None \<and> (\<exists>u. URL (chain s) = Some u \<and> Scheme u \<noteq> [])")
    case False
    with v Some have "fst (priv_execute E s) = []"
      by (auto simp: priv_execute_def split: option.splits)
    then show ?thesis by simp
  next
    case True
    then obtain u where g: "abort_err (chain s) = None" "URL (chain s) = Some u" "Scheme u \<noteq> []"
      by blast
    obtain tr res s1 where run: "apply_reqMods E (reqMods (chain s)) s = (tr, res, s1)"
      by (cases "apply_reqMods E (reqMods (chain s)) s") auto
    from apply_reqMods_cases [OF run] obtain k where k: "tr = map ReqModRun (take k (reqMods (chain s)))"
      by blast
    from send_upstream_trace [of E s1] obtain tr2 where
      up: "fst (send_upstream E s1) = Dispatch # tr2" "\<forall>e \<in> set tr2. \<exists>r. e = ResModRun r" by blast
    show ?thesis
    proof (cases "res = Return None")
      case False
      with priv_execute_ready [OF Some g, of E] run have "fst (priv_execute E s) = tr"
        by (auto split: go.splits option.splits)
      with k have "fst (priv_execute E s) = map ReqModRun (take k (reqMods (chain s))) @ []
          \<and> (\<forall>e \<in> set []. \<forall>q. e \<noteq> ReqModRun q)" by simp
      then show ?thesis by (intro exI)
    next
      case True
      with priv_execute_ready [OF Some g, of E] run up(1)
      have "fst (priv_execute E s) = tr @ Dispatch # tr2"
        by (auto split: prod.splits)
      moreover from up(2) have "\<forall>e \<in> set (Dispatch # tr2). \<forall>q. e \<noteq> ReqModRun q" by auto
      ultimately have "fst (priv_execute E s) = map ReqModRun (take k (reqMods (chain s))) @ Dispatch # tr2
          \<and> (\<forall>e \<in> set (Dispatch # tr2). \<forall>q. e \<noteq> ReqModRun q)" using k by simp
      then show ?thesis by (intro exI)
    qed
  qed
qed

lemma request_pass_runs_snapshot:
  "\<exists>k tr. trace (Execute E s) = map ReqModRun (take k (reqMods (chain s))) @ tr
      \<and> (\<forall>e \<in> set tr. \<forall>q. e \<noteq> ReqModRun q)"
proof -
  have "trace (Execute E s) = fst (priv_execute E s)"
    by (auto simp: Execute_def trace_def split: prod.splits go.splits option.splits)
  with priv_execute_trace [of E s] show ?thesis by simp
qed

lemma failed_bind_panics:
  assumes "extractUrl E (upd (\<lambda>p. p\<lparr>Ctx := ctx\<rparr>) s) = (Return (Some err), s1)"
  shows "outcome (exchange E ctx s) = Panic \<and> trace (exchange E ctx s) = []"
proof (cases "abort E err s1")
  case (Pair res s2)
  show ?thesis
  proof (cases res)
    case Panic
    with Pair assms show ?thesis by (simp add: exchange_def SetCtx_def outcome_def trace_def)
  next
    case (Return e)
    from abort_clearedD [OF Pair] have "Ctx (chain s2) = None" by (simp add: cleared_def)
    then have "Ctx (chain (upd (\<lambda>p. p\<lparr>abort_err := Some e\<rparr>) s2)) = None" by (simp add: upd_def)
    from Execute_without_ctx [OF this] Pair Return assms show ?thesis
      by (simp add: exchange_def SetCtx_def outcome_def trace_def)
  qed
qed



subsection \<open>Resolution of a relative capture through the referer\<close>

text \<open>
  Claim C1 says that a relative capture whose referer embeds an absolute URL resolves to
  the scheme and host of the embedded URL with the captured path and query. The code
  builds exactly that URL and stores it, but then tests \<^verbatim>\<open>urlQuery.Scheme == ""\<close> a second
  time, which is true on this branch, and returns an error (lemma
  \<open>extractUrl_relative_fails\<close>: no relative capture ever resolves). At the scenario of
  the specification, capture \<^verbatim>\<open>/images/pic.png\<close> with referer
  \<^verbatim>\<open>https://proxyhost/https://example.com/page\<close>: \<^verbatim>\<open>extractUrl\<close> returns the error,
  \<^verbatim>\<open>SetCtx\<close> aborts with status 500, and the reset leaves no target URL.
\<close>

theorem relative_capture_with_referer_is_rejected:
  "fst (extractUrl fx (upd (\<lambda>p. p\<lparr>Ctx := Some 0\<rparr>)
          (fx_sys [] ''/images/pic.png'' ''https://proxyhost/https://example.com/page'')))
     = Return (Some (''ProxyChain failed to extract url from relative path: ''
         @ quoted ''/images/pic.png''))
   \<and> fst (SetCtx fx (Some 0)
          (fx_sys [] ''/images/pic.png'' ''https://proxyhost/https://example.com/page'')) = Return ()
   \<and> URL (chain (snd (SetCtx fx (Some 0)
          (fx_sys [] ''/images/pic.png'' ''https://proxyhost/https://example.com/page'')))) = None
   \<and> StatusCode (ctxs (snd (SetCtx fx (Some 0)
          (fx_sys [] ''/images/pic.png'' ''https://proxyhost/https://example.com/page''))) 0) = 500"
  by (simp add: run_defs rec_defs fx_defs Let_def)

subsection \<open>Modifiers appended while the request modifiers run\<close>

text \<open>
  Claim C2 says that modifiers appended by a running request modifier run in the same
  pass, before the dispatch. The loop ranges over the list as it was when the loop
  began (lemma \<open>request_pass_runs_snapshot\<close>), so they do not: with
  \<^verbatim>\<open>RequestArchiveIs()\<close> in the list, the exchange dispatches without having run the
  appended \<^verbatim>\<open>ResolveWithGoogleDoH()\<close>, which is left in the list. The first chain holds
  \<^verbatim>\<open>RequestArchiveIs()\<close> alone (the dispatch then dereferences the nil request), the
  second one also a modifier that builds the request.
\<close>

theorem appended_modifier_not_run_in_same_pass:
  "trace (exchange fx (Some 0) (fx_sys [FxArchiveIs] ''https://example.com/a?x=1'' []))
     = [ReqModRun FxArchiveIs, Dispatch]
   \<and> reqMods (chain (final (exchange fx (Some 0)
         (fx_sys [FxArchiveIs] ''https://example.com/a?x=1'' []))))
     = [FxArchiveIs, FxGoogleDoH]
   \<and> trace (exchange fx (Some 0) (fx_sys [FxArchiveIs, FxBuildReq] ''https://example.com/a?x=1'' []))
     = [ReqModRun FxArchiveIs, ReqModRun FxBuildReq, Dispatch]
   \<and> outcome (exchange fx (Some 0) (fx_sys [FxArchiveIs, FxBuildReq] ''https://example.com/a?x=1'' []))
     = Return None
   \<and> reqMods (chain (final (exchange fx (Some 0)
         (fx_sys [FxArchiveIs, FxBuildReq] ''https://example.com/a?x=1'' []))))
     = [FxArchiveIs, FxBuildReq, FxGoogleDoH]"
  by (simp add: run_defs rec_defs fx_defs Let_def)

subsection \<open>Execution after a failed bind\<close>

text \<open>
  Claim C3 says that \<^verbatim>\<open>Execute\<close> after a failed \<^verbatim>\<open>SetCtx\<close> reports the cached resolution
  error again. The abort inside \<^verbatim>\<open>SetCtx\<close> has already reset the chain, so the context
  is nil; \<^verbatim>\<open>_execute\<close> first calls \<^verbatim>\<open>_validate_ctx_is_set\<close>, whose abort dereferences the
  nil context, and the test of the cached error is never reached (lemma
  \<open>failed_bind_panics\<close>). No modifier runs, nothing is dispatched and the reset is
  performed, but the call panics instead of returning the cached error.
\<close>

theorem Execute_after_failed_bind_panics:
  "fst (SetCtx fx (Some 0)
      (fx_sys [FxBuildReq] ''/images/pic.png'' ''https://proxyhost/https://example.com/page'')) = Return ()
   \<and> abort_err (chain (snd (SetCtx fx (Some 0)
      (fx_sys [FxBuildReq] ''/images/pic.png'' ''https://proxyhost/https://example.com/page''))))
     = Some (''ProxyChain error for '' @ quoted ''https://example.com/images/pic.png''
         @ '': ProxyChain failed to extract url from relative path: '' @ quoted ''/images/pic.png'')
   \<and> Execute fx (snd (SetCtx fx (Some 0)
      (fx_sys [FxBuildReq] ''/images/pic.png'' ''https://proxyhost/https://example.com/page'')))
     = ([], Panic, priv_reset (snd (SetCtx fx (Some 0)
      (fx_sys [FxBuildReq] ''/images/pic.png'' ''https://proxyhost/https://example.com/page''))))"
  by (simp add: run_defs rec_defs fx_defs Let_def)

subsection \<open>A failing request modifier\<close>

text \<open>
  Claim C4: when the request modifier at position \<open>k\<close> (here \<open>m\<close>, after the prefix
  \<open>pre\<close>, all of which returned nil) returns an error, the execution has called the
  modifiers up to \<open>m\<close> and nothing else: no later request modifier, no response
  modifier, and not \<^verbatim>\<open>Client.Do\<close>; and it does not succeed.
\<close>

theorem failed_request_modifier_stops_exchange:
  assumes "Ctx (chain s) = Some c" and "abort_err (chain s) = None"
    and "URL (chain s) = Some u" and "Scheme u \<noteq> []"
    and "reqMods (chain s) = pre @ m # post"
    and "apply_reqMods E pre s = (tr, Return None, s1)"
    and "reqMod E m s1 = (Return (Some err), s2)"
  shows "trace (Execute E s) = map ReqModRun (pre @ [m])
    \<and> Dispatch \<notin> set (trace (Execute E s))
    \<and> (\<forall>r. ResModRun r \<notin> set (trace (Execute E s)))
    \<and> outcome (Execute E s) \<noteq> Return None"
proof -
  obtain tr' res s' where run: "apply_reqMods E (pre @ m # post) s = (tr', res, s')"
    by (cases "apply_reqMods E (pre @ m # post) s") auto
  from apply_reqMods_fail_at [OF assms(6,7), of post] run
  have tr': "tr' = map ReqModRun (pre @ [m])" and res: "res \<noteq> Return None" by simp_all
  from priv_execute_ready [OF assms(1-4), of E] assms(5) run res
  have "fst (priv_execute E s) = tr' \<and> fst (snd (priv_execute E s)) \<noteq> Return None"
    by (auto split: go.splits option.splits)
  then have "trace (Execute E s) = tr' \<and> outcome (Execute E s) \<noteq> Return None"
    by (auto simp: Execute_def trace_def outcome_def split: prod.splits go.splits option.splits)
  with tr' show ?thesis by auto
qed

theorem failed_request_modifier_stops_exchange_witness:
  "trace (Execute fx (snd (SetCtx fx (Some 0)
      (fx_sys [FxBuildReq, FxFailing, FxArchiveIs] ''https://example.com/a?x=1'' []))))
     = [ReqModRun FxBuildReq, ReqModRun FxFailing]
   \<and> apply_reqMods fx [FxBuildReq] (snd (SetCtx fx (Some 0)
      (fx_sys [FxBuildReq, FxFailing, FxArchiveIs] ''https://example.com/a?x=1'' [])))
     = ([ReqModRun FxBuildReq], Return None, upd (\<lambda>p. p\<lparr>Req := Some \<lparr>Header = []\<rparr>\<rparr>)
        (snd (SetCtx fx (Some 0)
          (fx_sys [FxBuildReq, FxFailing, FxArchiveIs] ''https://example.com/a?x=1'' []))))"
proof -
  let ?s = "snd (SetCtx fx (Some 0)
      (fx_sys [FxBuildReq, FxFailing, FxArchiveIs] ''https://example.com/a?x=1'' []))"
  let ?u = "zero_URL\<lparr>Scheme := ''https'', Host := ''example.com'', Path := ''/a'', RawQuery := ''x=1''\<rparr>"
  let ?s1 = "upd (\<lambda>p. p\<lparr>Req := Some \<lparr>Header = []\<rparr>\<rparr>) ?s"
  have h1: "Ctx (chain ?s) = Some 0" by (simp add: run_defs rec_defs fx_defs)
  have h2: "abort_err (chain ?s) = None" by (simp add: run_defs rec_defs fx_defs)
  have h3: "URL (chain ?s) = Some ?u" by (simp add: run_defs rec_defs fx_defs)
  have h4: "Scheme ?u \<noteq> []" by (simp add: zero_URL_def)
  have h5: "reqMods (chain ?s) = [FxBuildReq] @ FxFailing # [FxArchiveIs]"
    by (simp add: run_defs rec_defs fx_defs)
  have h6: "apply_reqMods fx [FxBuildReq] ?s = ([ReqModRun FxBuildReq], Return None, ?s1)"
    by (simp add: fx_def)
  have h7: "reqMod fx FxFailing ?s1 = (Return (Some ''modifier failed''), ?s1)"
    by (simp add: fx_def)
  from failed_request_modifier_stops_exchange [OF h1 h2 h3 h4 h5 h6 h7] h6
  show ?thesis by simp
qed

subsection \<open>State after an execution\<close>

text \<open>
  Claim C5 says that after \<^verbatim>\<open>Execute\<close> or \<^verbatim>\<open>ExecuteAPIContent\<close> the per-exchange state is
  cleared and the modifier lists, client, rule set and verbosity flag are unchanged.
  The second half fails when a modifier of the exchange changes the configuration:
  \<^verbatim>\<open>RequestArchiveIs()\<close> appends to the request-modifier list and the reset does not
  take the appended modifier out.
\<close>

theorem self_expanding_modifier_changes_configuration:
  "reqMods (chain (snd (SetCtx fx (Some 0)
      (fx_sys [FxArchiveIs, FxBuildReq] ''https://example.com/a?x=1'' [])))) = [FxArchiveIs, FxBuildReq]
   \<and> reqMods (chain (final (Execute fx (snd (SetCtx fx (Some 0)
      (fx_sys [FxArchiveIs, FxBuildReq] ''https://example.com/a?x=1'' []))))))
     = [FxArchiveIs, FxBuildReq, FxGoogleDoH]
   \<and> config (chain (final (Execute fx (snd (SetCtx fx (Some 0)
      (fx_sys [FxArchiveIs, FxBuildReq] ''https://example.com/a?x=1'' []))))))
   \<noteq> config (chain (snd (SetCtx fx (Some 0)
      (fx_sys [FxArchiveIs, FxBuildReq] ''https://example.com/a?x=1'' []))))"
  by (simp add: run_defs rec_defs fx_defs Let_def)

text \<open>
  Claim C5 as amended: after \<^verbatim>\<open>Execute\<close> or \<^verbatim>\<open>ExecuteAPIContent\<close>, however the call ended,
  the request context, target URL, outbound request, upstream response, buffered body
  and cached abort error are cleared; \<^verbatim>\<open>_reset\<close> leaves the modifier lists, the client,
  the rule set and the verbosity flag as they are; and the call leaves them unchanged
  when none of the modifiers in the two lists of the chain changes them (these are the
  only modifiers the exchange can run then).
\<close>

theorem reset_clears_exchange_state_keeps_configuration:
  "cleared (chain (final (Execute E s)))
   \<and> cleared (chain (final (ExecuteAPIContent E s)))
   \<and> config (chain (priv_reset s)) = config (chain s)
   \<and> ((\<forall>m \<in> set (reqMods (chain s)). \<forall>t. config (chain (snd (reqMod E m t))) = config (chain t))
        \<and> (\<forall>r \<in> set (resMods (chain s)). \<forall>t. config (chain (snd (resMod E r t))) = config (chain t)) \<longrightarrow>
      config (chain (final (Execute E s))) = config (chain s)
      \<and> config (chain (final (ExecuteAPIContent E s))) = config (chain s))"
proof -
  have "config (chain (final (Execute E s))) = config (chain s)
      \<and> config (chain (final (ExecuteAPIContent E s))) = config (chain s)"
    if "\<forall>m \<in> set (reqMods (chain s)). \<forall>t. config (chain (snd (reqMod E m t))) = config (chain t)"
      and "\<forall>r \<in> set (resMods (chain s)). \<forall>t. config (chain (snd (resMod E r t))) = config (chain t)"
    using priv_execute_config [OF that] Execute_final_config [of E s] by simp
  with priv_execute_then_reset_cleared [of E s] reset_config [of s] show ?thesis by blast
qed

theorem reset_clears_exchange_state_keeps_configuration_witness:
  "outcome (Execute fx (SetResMods [FxModifyResponseHeader ''X-Frame-Options'' []]
      (snd (SetCtx fx (Some 0) (fx_sys [FxBuildReq] ''https://example.com/a?x=1'' []))))) = Return None
   \<and> trace (Execute fx (SetResMods [FxModifyResponseHeader ''X-Frame-Options'' []]
      (snd (SetCtx fx (Some 0) (fx_sys [FxBuildReq] ''https://example.com/a?x=1'' [])))))
     = [ReqModRun FxBuildReq, Dispatch, ResModRun (FxModifyResponseHeader ''X-Frame-Options'' [])]
   \<and> cleared (chain (final (Execute fx (SetResMods [FxModifyResponseHeader ''X-Frame-Options'' []]
      (snd (SetCtx fx (Some 0) (fx_sys [FxBuildReq] ''https://example.com/a?x=1'' [])))))))
   \<and> config (chain (final (Execute fx (SetResMods [FxModifyResponseHeader ''X-Frame-Options'' []]
      (snd (SetCtx fx (Some 0) (fx_sys [FxBuildReq] ''https://example.com/a?x=1'' [])))))))
     = ([FxBuildReq], [FxModifyResponseHeader ''X-Frame-Options'' []],
        Some \<lparr>Timeout = 15\<rparr>, None, False)
   \<and> config (chain (final (ExecuteAPIContent fx (SetResMods [FxModifyResponseHeader ''X-Frame-Options'' []]
      (snd (SetCtx fx (Some 0) (fx_sys [FxBuildReq] ''https://example.com/a?x=1'' [])))))))
     = ([FxBuildReq], [FxModifyResponseHeader ''X-Frame-Options'' []],
        Some \<lparr>Timeout = 15\<rparr>, None, False)"
proof -
  let ?s = "SetResMods [FxModifyResponseHeader ''X-Frame-Options'' []]
      (snd (SetCtx fx (Some 0) (fx_sys [FxBuildReq] ''https://example.com/a?x=1'' [])))"
  have q: "reqMods (chain ?s) = [FxBuildReq]"
    by (simp add: SetResMods_def run_defs rec_defs fx_defs)
  have r: "resMods (chain ?s) = [FxModifyResponseHeader ''X-Frame-Options'' []]"
    by (simp add: SetResMods_def run_defs rec_defs fx_defs)
  have h1: "\<forall>m \<in> set (reqMods (chain ?s)). \<forall>t. config (chain (snd (reqMod fx m t))) = config (chain t)"
    unfolding q by (simp add: fx_def config_def upd_def)
  have h2: "\<forall>r \<in> set (resMods (chain ?s)). \<forall>t. config (chain (snd (resMod fx r t))) = config (chain t)"
    unfolding r by (simp add: fx_def config_def split: option.splits)
  have c: "config (chain ?s) = ([FxBuildReq], [FxModifyResponseHeader ''X-Frame-Options'' []],
        Some \<lparr>Timeout = 15\<rparr>, None, False)"
    by (simp add: SetResMods_def run_defs rec_defs fx_defs)
  have ok: "outcome (Execute fx ?s) = Return None
    \<and> trace (Execute fx ?s)
      = [ReqModRun FxBuildReq, Dispatch, ResModRun (FxModifyResponseHeader ''X-Frame-Options'' [])]"
    by (simp add: SetResMods_def run_defs rec_defs fx_defs)
  from reset_clears_exchange_state_keeps_configuration [of fx ?s] h1 h2 c ok
  show ?thesis by simp
qed

subsection \<open>Resolution of an absolute capture\<close>



subsection \<open>A relative capture without a usable referer\<close>

text \<open>
  Claim C7: when the capture parses to a URL without a scheme and the referer does not
  parse or parses to a URL without a host (the empty referer of a request that has none
  parses to the empty URL), \<^verbatim>\<open>extractUrl\<close> returns the error
  \<^verbatim>\<open>error parsing referer URL from req\<close> and leaves the chain as it was, and the
  exchange calls no modifier and never \<^verbatim>\<open>Client.Do\<close>.
\<close>

theorem relative_capture_unusable_referer:
  assumes "Parse E (unescaped E (Params_star (ctxs s c))) = Inr urlQuery"
    and "Scheme urlQuery = []"
    and "case Parse E (Get_referer (ctxs s c)) of Inl e \<Rightarrow> True | Inr r \<Rightarrow> Host r = []"
  shows "extractUrl E (upd (\<lambda>p. p\<lparr>Ctx := Some c\<rparr>) s) =
      (Return (Some (''error parsing referer URL from req: ''
          @ quoted (unescaped E (Params_star (ctxs s c))) @ '': ''
          @ fmt_v (case Parse E (Get_referer (ctxs s c)) of Inl e \<Rightarrow> Some e | Inr r \<Rightarrow> None))),
       upd (\<lambda>p. p\<lparr>Ctx := Some c\<rparr>) s)
    \<and> Dispatch \<notin> set (trace (exchange E (Some c) s))
    \<and> trace (exchange E (Some c) s) = []"
proof -
  let ?s1 = "upd (\<lambda>p. p\<lparr>Ctx := Some c\<rparr>) s"
  let ?msg = "''error parsing referer URL from req: ''
          @ quoted (unescaped E (Params_star (ctxs s c))) @ '': ''
          @ fmt_v (case Parse E (Get_referer (ctxs s c)) of Inl e \<Rightarrow> Some e | Inr r \<Rightarrow> None)"
  have c: "Ctx (chain ?s1) = Some c" by (simp add: upd_def)
  have p: "Parse E (unescaped E (Params_star (ctxs ?s1 c))) = Inr urlQuery"
    using assms(1) by (simp add: upd_def)
  have r: "case Parse E (Get_referer (ctxs ?s1 c)) of Inl e \<Rightarrow> True | Inr r \<Rightarrow> Host r = []"
    using assms(3) by (simp add: upd_def)
  from extractUrl_bad_referer [OF c p assms(2) r]
  have ex: "extractUrl E ?s1 = (Return (Some ?msg), ?s1)" by (simp add: upd_def)
  from failed_bind_panics [OF ex]
  have "outcome (exchange E (Some c) s) = Panic \<and> trace (exchange E (Some c) s) = []" .
  with ex show ?thesis by simp
qed

theorem relative_capture_unusable_referer_witness:
  "Parse fx (unescaped fx (Params_star (ctxs (fx_sys [FxBuildReq] ''/images/pic.png'' []) 0)))
     = Inr (zero_URL\<lparr>Path := ''/images/pic.png''\<rparr>)
   \<and> Scheme (zero_URL\<lparr>Path := ''/images/pic.png''\<rparr>) = []
   \<and> (case Parse fx (Get_referer (ctxs (fx_sys [FxBuildReq] ''/images/pic.png'' []) 0)) of
         Inl e \<Rightarrow> True | Inr r \<Rightarrow> Host r = [])
   \<and> fst (extractUrl fx (upd (\<lambda>p. p\<lparr>Ctx := Some 0\<rparr>) (fx_sys [FxBuildReq] ''/images/pic.png'' [])))
     = Return (Some (''error parsing referer URL from req: '' @ quoted ''/images/pic.png'' @ '': <nil>''))
   \<and> trace (exchange fx (Some 0) (fx_sys [FxBuildReq] ''/images/pic.png'' [])) = []"
proof -
  have h1: "Parse fx (unescaped fx (Params_star (ctxs (fx_sys [FxBuildReq] ''/images/pic.png'' []) 0)))
     = Inr (zero_URL\<lparr>Path := ''/images/pic.png''\<rparr>)"
    by (simp add: fx_defs)
  have h2: "Scheme (zero_URL\<lparr>Path := ''/images/pic.png''\<rparr>) = []" by (simp add: zero_URL_def)
  have h3: "case Parse fx (Get_referer (ctxs (fx_sys [FxBuildReq] ''/images/pic.png'' []) 0)) of
         Inl e \<Rightarrow> True | Inr r \<Rightarrow> Host r = []"
    by (simp add: fx_defs)
  from relative_capture_unusable_referer [OF h1 h2 h3]
  have "fst (extractUrl fx (upd (\<lambda>p. p\<lparr>Ctx := Some 0\<rparr>) (fx_sys [FxBuildReq] ''/images/pic.png'' [])))
     = Return (Some (''error parsing referer URL from req: '' @ quoted ''/images/pic.png'' @ '': <nil>''))
   \<and> trace (exchange fx (Some 0) (fx_sys [FxBuildReq] ''/images/pic.png'' [])) = []"
    by (simp add: fx_defs)
  with h1 h2 h3 show ?thesis by simp
qed

subsection \<open>The empty response-modifier chain\<close>

text \<open>
  Claim C8: in an exchange that passes the checks of \<^verbatim>\<open>_execute\<close>, whose request
  modifiers all return nil, whose dispatch answers with a response whose body is read
  in full, and whose response-modifier list is empty, \<^verbatim>\<open>Execute\<close> succeeds and the body
  sent to the bound context is the upstream body, byte for byte.
\<close>

theorem empty_response_chain_returns_upstream_body:
  assumes "Ctx (chain s) = Some c0" and "abort_err (chain s) = None"
    and "URL (chain s) = Some u" and "Scheme u \<noteq> []"
    and "apply_reqMods E (reqMods (chain s)) s = (tr, Return None, s1)"
    and "Client_Do E (Client (chain s1)) (Req (chain s1)) = Return (Inr resp)"
    and "Resp_Body resp = Inr body"
    and "resMods (chain s1) = []"
    and "Ctx (chain s1) = Some c"
  shows "trace (Execute E s) = tr @ [Dispatch]
    \<and> outcome (Execute E s) = Return None
    \<and> ResponseBody (ctxs (final (Execute E s)) c) = body"
proof -
  let ?s2 = "upd (\<lambda>p. p\<lparr>Body := body\<rparr>) (upd (\<lambda>p. p\<lparr>Resp := Some resp\<rparr>) s1)"
  have up: "send_upstream E s1 = ([Dispatch], Return None, ?s2)"
    using assms(6,7,8) by (simp add: send_upstream_def Let_def upd_def)
  from priv_execute_ready [OF assms(1-4), of E] assms(5) up
  have "priv_execute E s = (tr @ [Dispatch], Return None, ?s2)" by simp
  moreover have "Ctx (chain ?s2) = Some c" using assms(9) by (simp add: upd_def)
  ultimately show ?thesis
    by (simp add: Execute_def trace_def outcome_def final_def rec_defs)
qed

theorem empty_response_chain_returns_upstream_body_witness:
  "outcome (Execute fx (snd (SetCtx fx (Some 0) (fx_sys [FxBuildReq] ''https://example.com/a?x=1'' []))))
     = Return None
   \<and> ResponseBody (ctxs (final (Execute fx (snd (SetCtx fx (Some 0)
        (fx_sys [FxBuildReq] ''https://example.com/a?x=1'' []))))) 0) = ''upstream page''"
proof -
  let ?s = "snd (SetCtx fx (Some 0) (fx_sys [FxBuildReq] ''https://example.com/a?x=1'' []))"
  let ?u = "zero_URL\<lparr>Scheme := ''https'', Host := ''example.com'', Path := ''/a'', RawQuery := ''x=1''\<rparr>"
  let ?s1 = "upd (\<lambda>p. p\<lparr>Req := Some \<lparr>Header = []\<rparr>\<rparr>) ?s"
  have h1: "Ctx (chain ?s) = Some 0" by (simp add: run_defs rec_defs fx_defs)
  have h2: "abort_err (chain ?s) = None" by (simp add: run_defs rec_defs fx_defs)
  have h3: "URL (chain ?s) = Some ?u" by (simp add: run_defs rec_defs fx_defs)
  have h4: "Scheme ?u \<noteq> []" by (simp add: zero_URL_def)
  have h5: "apply_reqMods fx (reqMods (chain ?s)) ?s = ([ReqModRun FxBuildReq], Return None, ?s1)"
    by (simp add: run_defs rec_defs fx_defs)
  have h6: "Client_Do fx (Client (chain ?s1)) (Req (chain ?s1)) = Return (Inr fx_page)"
    by (simp add: run_defs rec_defs fx_defs)
  have h7: "Resp_Body fx_page = Inr ''upstream page''" by (simp add: fx_page_def)
  have h8: "resMods (chain ?s1) = []" by (simp add: run_defs rec_defs fx_defs)
  have h9: "Ctx (chain ?s1) = Some 0" by (simp add: run_defs rec_defs fx_defs)
  from empty_response_chain_returns_upstream_body [OF h1 h2 h3 h4 h5 h6 h7 h8 h9]
  show ?thesis by simp
qed

subsection \<open>The response of an aborted exchange\<close>

text \<open>
  Claim C9 says that every aborted exchange answers with status 500 and the body
  \<^verbatim>\<open>ProxyChain error for '<url>': <cause>\<close>. \<^verbatim>\<open>abort\<close> writes that body when the context
  and the target URL are set (lemma \<open>abort_sends\<close>). A resolution failure on a new or
  reset chain happens before any target URL is stored: \<^verbatim>\<open>abort\<close> sets the status and
  then panics in \<^verbatim>\<open>p.URL.String()\<close> (lemma \<open>abort_without_URL\<close>), so no body is written.
  Here: a relative capture and no referer, on a new chain.
\<close>

theorem abort_without_resolved_URL_panics:
  "fst (SetCtx fx (Some 0) (fx_sys [] ''/images/pic.png'' [])) = Panic
   \<and> ctxs (snd (SetCtx fx (Some 0) (fx_sys [] ''/images/pic.png'' []))) 0
     = \<lparr>Params_star = ''/images/pic.png'', Get_referer = [], StatusCode = 500, ResponseBody = []\<rparr>"
  by (simp add: run_defs rec_defs fx_defs Let_def)

subsection \<open>Appended modifiers persist across exchanges\<close>



end
